theory Spec2Isabelle
  imports Main
begin

section \<open>Python primitives used by the transcript processor\<close>

text \<open>
  Python strings are modelled as \<^typ>\<open>string\<close>, one \<^typ>\<open>char\<close> per code point
  (code points below 256). Python integers are \<^typ>\<open>int\<close>; lengths and counts are
  \<^typ>\<open>nat\<close>. The only exception the chunking code can raise by itself is the
  \<open>ValueError\<close> of \<open>range\<close> with a zero step.
\<close>

datatype error = ValueError

text \<open>\<open>range(start, stop, step)\<close> for a positive step: the values
  \<open>start, start + step, ...\<close> below \<open>stop\<close>.\<close>

function range_up :: "int \<Rightarrow> int \<Rightarrow> int \<Rightarrow> int list" where
  "range_up i stop step =
     (if 0 < step \<and> i < stop then i # range_up (i + step) stop step else [])"
  by pat_completeness auto
termination
  by (relation "measure (\<lambda>(i, stop, step). nat (stop - i))") auto

text \<open>\<open>range(start, stop, step)\<close> for a negative step: the values
  \<open>start, start + step, ...\<close> above \<open>stop\<close>.\<close>

function range_down :: "int \<Rightarrow> int \<Rightarrow> int \<Rightarrow> int list" where
  "range_down i stop step =
     (if step < 0 \<and> stop < i then i # range_down (i + step) stop step else [])"
  by pat_completeness auto
termination
  by (relation "measure (\<lambda>(i, stop, step). nat (i - stop))") auto

definition py_range :: "int \<Rightarrow> int \<Rightarrow> int \<Rightarrow> error + int list" where
  "py_range start stop step =
     (if step = 0 then Inl ValueError
      else if 0 < step then Inr (range_up start stop step)
      else Inr (range_down start stop step))"

text \<open>\<open>xs[lo:hi]\<close>: a negative bound counts from the end, and both bounds are
  clamped to \<open>0 .. len(xs)\<close>.\<close>

definition py_slice :: "'a list \<Rightarrow> int \<Rightarrow> int \<Rightarrow> 'a list" where
  "py_slice xs lo hi =
     (let n = int (length xs);
          a = (if lo < 0 then max (lo + n) 0 else min lo n);
          b = (if hi < 0 then max (hi + n) 0 else min hi n)
      in take (nat (b - a)) (drop (nat a) xs))"

text \<open>\<open>str(i)\<close> for a non-negative integer: its decimal digits.\<close>

definition digit_char :: "nat \<Rightarrow> char" where
  "digit_char d = char_of (48 + d)"

function str_nat :: "nat \<Rightarrow> string" where
  "str_nat n = (if n < 10 then [digit_char n] else str_nat (n div 10) @ [digit_char (n mod 10)])"
  by pat_completeness auto
termination
  by (relation "measure id") auto

section \<open>The chunk store (ChromaDB collection)\<close>

text \<open>
  The collection is an external service. It is modelled as the list of its entries in
  insertion order, with unique ids: \<open>add\<close> of an id that is already present leaves the
  collection as it is, \<open>delete\<close> removes the entries with the given ids and ignores ids
  that are absent, \<open>get\<close> returns all ids. The service is taken to be reliable, so its calls
  do not raise.
\<close>

record chunk_metadata =
  source :: string
  processed :: bool

record chunk =
  cid :: string
  document :: string
  metadata :: chunk_metadata

type_synonym collection = "chunk list"

definition collection_get_ids :: "collection \<Rightarrow> string list" where
  "collection_get_ids col = map cid col"

definition collection_delete :: "collection \<Rightarrow> string list \<Rightarrow> collection" where
  "collection_delete col ids = filter (\<lambda>c. cid c \<notin> set ids) col"

definition collection_add :: "collection \<Rightarrow> chunk \<Rightarrow> collection" where
  "collection_add col c = (if cid c \<in> set (map cid col) then col else col @ [c])"

section \<open>TranscriptProcessor.process_transcript\<close>

text \<open>
  \<open>transcript_path\<close> is read as a file when a file of that name exists, and is the
  transcript itself otherwise. The file system is the map \<open>fs\<close> from the paths that exist
  to their contents.
\<close>

definition read_transcript :: "(string \<rightharpoonup> string) \<Rightarrow> string \<Rightarrow> string" where
  "read_transcript fs transcript_path =
     (case fs transcript_path of Some text \<Rightarrow> text | None \<Rightarrow> transcript_path)"

definition new_chunk :: "nat \<Rightarrow> string \<Rightarrow> chunk" where
  "new_chunk i text =
     \<lparr>cid = ''id_'' @ str_nat i, document = text,
      metadata = \<lparr>source = ''chunk_'' @ str_nat i, processed = False\<rparr>\<rparr>"

text \<open>
  The method clears the collection, computes the window starts with \<open>range\<close>, slices the
  transcript and adds one entry per chunk. An exception is logged and raised again: the
  result is the collection as the call leaves it, with either the error or the number of
  chunks. The collection exists from the constructor on, so the branch that initialises a
  missing one is never taken.
\<close>

definition process_transcript ::
  "(string \<rightharpoonup> string) \<Rightarrow> collection \<Rightarrow> string \<Rightarrow> int \<Rightarrow> int \<Rightarrow> collection \<times> (error + nat)" where
  "process_transcript fs col transcript_path chunk_size overlap =
     (let cleared = collection_delete col (collection_get_ids col);
          transcript = read_transcript fs transcript_path
      in case py_range 0 (int (length transcript)) (chunk_size - overlap) of
           Inl e \<Rightarrow> (cleared, Inl e)
         | Inr starts \<Rightarrow>
             (let chunks = map (\<lambda>i. py_slice transcript i (i + chunk_size)) starts
              in (fold (\<lambda>(i, text) c. collection_add c (new_chunk i text)) (enumerate 0 chunks) cleared,
                  Inr (length chunks))))"

text \<open>Reassembling a document from its chunks: the first chunk, then every later chunk
  without its first \<open>overlap\<close> characters.\<close>

fun reassemble :: "nat \<Rightarrow> 'a list list \<Rightarrow> 'a list" where
  "reassemble overlap [] = []"
| "reassemble overlap (c # cs) = c @ concat (map (drop overlap) cs)"

section \<open>The query tool\<close>

text \<open>\<open>str.strip()\<close> removes the white space at both ends. The white-space
  characters below code point 256 are the ones \<open>str.isspace\<close> accepts.\<close>

definition isspace :: "char \<Rightarrow> bool" where
  "isspace c = (of_char c \<in> {9, 10, 11, 12, 13, 28, 29, 30, 31, 32, 133, 160 :: nat})"

definition py_strip :: "string \<Rightarrow> string" where
  "py_strip s = rev (dropWhile isspace (rev (dropWhile isspace s)))"

text \<open>
  The similarity search is external: \<open>distance query text\<close> is the distance the index
  assigns to a document for a query, in any linear order. \<open>collection.query\<close> returns the
  \<open>n_results\<close> entries nearest to the query, nearest first.
\<close>

definition collection_query ::
  "(string \<Rightarrow> string \<Rightarrow> 'd::linorder) \<Rightarrow> collection \<Rightarrow> string \<Rightarrow> nat \<Rightarrow> chunk list" where
  "collection_query distance col query_text n_results =
     take n_results (sort_key (\<lambda>c. distance query_text (document c)) col)"

text \<open>
  \<open>query_transcript\<close> returns the sentinel when the collection has no ids, and otherwise
  joins the documents of the query's results, deletes their ids and returns the joined
  text stripped. The result is the collection after the call and the returned string.
\<close>

definition query_transcript ::
  "(string \<Rightarrow> string \<Rightarrow> 'd::linorder) \<Rightarrow> collection \<Rightarrow> string \<Rightarrow> collection \<times> string" where
  "query_transcript distance col query =
     (if collection_get_ids col = [] then (col, ''CHROMADB_EMPTY: All chunks have been processed.'')
      else
        (let results = collection_query distance col query 1 in
         if results = [] then (col, ''No results found for the query'')
         else
           (let combined_result =
                  fold (\<lambda>c acc. acc @ [CHR 0x0A] @ document c @ [CHR 0x0A]) results [];
                chunk_ids = fold (\<lambda>c acc. acc @ [cid c]) results []
            in (if chunk_ids \<noteq> [] then collection_delete col chunk_ids else col,
                py_strip combined_result))))"

text \<open>The ids a call removed from the collection, and the ids removed by a sequence of
  queries made one after the other.\<close>

definition removed_ids :: "collection \<Rightarrow> collection \<Rightarrow> string list" where
  "removed_ids before after = filter (\<lambda>i. i \<notin> set (map cid after)) (map cid before)"

fun query_all ::
  "(string \<Rightarrow> string \<Rightarrow> 'd::linorder) \<Rightarrow> collection \<Rightarrow> string list \<Rightarrow> string list" where
  "query_all distance col [] = []"
| "query_all distance col (q # qs) =
     removed_ids col (fst (query_transcript distance col q))
       @ query_all distance (fst (query_transcript distance col q)) qs"

section \<open>The run context and delete_processed_chunks\<close>

text \<open>The run context of the agent framework has no attribute \<open>processed_chunks\<close>
  unless some code sets one: \<open>None\<close> is the absent attribute.\<close>

record RunContext =
  processed_chunks :: "string list option"

definition delete_processed_chunks ::
  "RunContext \<Rightarrow> collection \<Rightarrow> RunContext \<times> collection \<times> string" where
  "delete_processed_chunks ctx col =
     (case processed_chunks ctx of
        None \<Rightarrow> (ctx, col, ''No chunks to delete'')
      | Some chunks \<Rightarrow>
          if chunks = [] then (ctx, col, ''No chunks to delete'')
          else (ctx\<lparr>processed_chunks := Some []\<rparr>, collection_delete col chunks,
                ''Successfully deleted '' @ str_nat (length chunks) @ '' chunks''))"

section \<open>The summary accumulator (MeetingSummarizer)\<close>

record Block =
  id_block :: string
  type_block :: string
  content :: string
  color :: string

record Section =
  title :: string
  blocks :: "Block list"

record SummaryResponse =
  Agenda :: Section
  Decisions :: Section
  ActionItems :: Section
  ClosingRemarks :: Section

record MeetingSummarizer =
  model :: string
  self_Agenda :: Section
  self_Decisions :: Section
  self_ActionItems :: Section
  self_ClosingRemarks :: Section

definition MeetingSummarizer_init :: "string \<Rightarrow> MeetingSummarizer" where
  "MeetingSummarizer_init api_key =
     \<lparr>model = ''qwen2.5:14b'',
      self_Agenda = \<lparr>title = ''Agenda'', blocks = []\<rparr>,
      self_Decisions = \<lparr>title = ''Decisions'', blocks = []\<rparr>,
      self_ActionItems = \<lparr>title = ''Action Items'', blocks = []\<rparr>,
      self_ClosingRemarks = \<lparr>title = ''Closing Remarks'', blocks = []\<rparr>\<rparr>"

text \<open>\<open>uuid4\<close> is the string of the identifier \<open>uuid.uuid4()\<close> draws for the call.
  The callers of \<open>create_block\<close> pass the block type and leave the colour at its default
  \<open>default\<close>. The title is a parameter of \<open>create_block\<close> that its body does not use.\<close>

definition create_block :: "string \<Rightarrow> string \<Rightarrow> string \<Rightarrow> string \<Rightarrow> string \<Rightarrow> Block" where
  "create_block uuid4 title_arg content_arg block_type color_arg =
     \<lparr>id_block = uuid4, type_block = block_type, content = content_arg, color = color_arg\<rparr>"

definition MeetingSummarizer_add_action_item ::
  "MeetingSummarizer \<Rightarrow> string \<Rightarrow> string \<Rightarrow> string \<Rightarrow> MeetingSummarizer \<times> string" where
  "MeetingSummarizer_add_action_item self uuid4 title_arg content_arg =
     (let block = create_block uuid4 title_arg content_arg ''action'' ''default''
      in (self\<lparr>self_ActionItems :=
                 (self_ActionItems self)\<lparr>blocks := blocks (self_ActionItems self) @ [block]\<rparr>\<rparr>,
          ''Successfully added action item: '' @ id_block block))"

definition MeetingSummarizer_add_agenda_item ::
  "MeetingSummarizer \<Rightarrow> string \<Rightarrow> string \<Rightarrow> string \<Rightarrow> MeetingSummarizer \<times> string" where
  "MeetingSummarizer_add_agenda_item self uuid4 title_arg content_arg =
     (let block = create_block uuid4 title_arg content_arg ''agenda'' ''default''
      in (self\<lparr>self_Agenda :=
                 (self_Agenda self)\<lparr>blocks := blocks (self_Agenda self) @ [block]\<rparr>\<rparr>,
          ''Successfully added agenda item: '' @ id_block block))"

definition MeetingSummarizer_add_decision ::
  "MeetingSummarizer \<Rightarrow> string \<Rightarrow> string \<Rightarrow> string \<Rightarrow> MeetingSummarizer \<times> string" where
  "MeetingSummarizer_add_decision self uuid4 title_arg content_arg =
     (let block = create_block uuid4 title_arg content_arg ''decision'' ''default''
      in (self\<lparr>self_Decisions :=
                 (self_Decisions self)\<lparr>blocks := blocks (self_Decisions self) @ [block]\<rparr>\<rparr>,
          ''Successfully added decision: '' @ id_block block))"

definition generate_summary :: "MeetingSummarizer \<Rightarrow> SummaryResponse" where
  "generate_summary self =
     \<lparr>Agenda = self_Agenda self,
      Decisions = self_Decisions self,
      ActionItems = self_ActionItems self,
      ClosingRemarks = \<lparr>title = ''Closing Remarks'', blocks = []\<rparr>\<rparr>"

section \<open>The summary tools\<close>

definition add_action_item ::
  "MeetingSummarizer \<Rightarrow> string \<Rightarrow> string \<Rightarrow> string \<Rightarrow> MeetingSummarizer \<times> string" where
  "add_action_item summarizer uuid4 title_arg content_arg =
     (let (summarizer', result) = MeetingSummarizer_add_action_item summarizer uuid4 title_arg content_arg
      in (summarizer', ''Successfully added action item: '' @ result))"

definition add_agenda_item ::
  "MeetingSummarizer \<Rightarrow> string \<Rightarrow> string \<Rightarrow> string \<Rightarrow> MeetingSummarizer \<times> string" where
  "add_agenda_item summarizer uuid4 title_arg content_arg =
     (let (summarizer', result) = MeetingSummarizer_add_agenda_item summarizer uuid4 title_arg content_arg
      in (summarizer', ''Successfully added agenda item: '' @ result))"

definition add_decision ::
  "MeetingSummarizer \<Rightarrow> string \<Rightarrow> string \<Rightarrow> string \<Rightarrow> MeetingSummarizer \<times> string" where
  "add_decision summarizer uuid4 title_arg content_arg =
     (let (summarizer', result) = MeetingSummarizer_add_decision summarizer uuid4 title_arg content_arg
      in (summarizer', ''Successfully added decision: '' @ result))"

text \<open>
  \<open>save_final_summary_result\<close> writes the JSON text of the summary to
  \<open>final_summary_result.json\<close>. \<open>dump\<close> is the serialiser (\<open>model_dump_json\<close>), which
  is external and taken not to raise, and
  \<open>io_error\<close> is \<open>Some msg\<close> when opening or writing the file raises \<open>IOError\<close> with that
  message. The result is the text written, if any, and the returned status string.
\<close>

definition save_final_summary_result ::
  "(SummaryResponse \<Rightarrow> string) \<Rightarrow> string option \<Rightarrow> MeetingSummarizer \<Rightarrow> string option \<times> string" where
  "save_final_summary_result dump io_error summarizer =
     (let summary = generate_summary summarizer in
      if \<not> list_ex (\<lambda>bs. bs \<noteq> [])
             [blocks (Agenda summary), blocks (Decisions summary),
              blocks (ActionItems summary), blocks (ClosingRemarks summary)]
      then (None, ''Error: No content found in summary. Please add some items first.'')
      else
        (let json_data = dump summary in
         case io_error of
           None \<Rightarrow> (Some json_data, ''Successfully saved final summary result to file'')
         | Some msg \<Rightarrow> (None, ''Error saving to file: '' @ msg)))"

definition get_final_summary :: "MeetingSummarizer \<Rightarrow> SummaryResponse" where
  "get_final_summary summarizer = generate_summary summarizer"

section \<open>The agent's tools on the shared state\<close>

text \<open>
  The module holds one summarizer and one processor, and the agent calls the seven
  registered tools on them, one call at a time. A call carries what the environment
  decides for it: the identifier \<open>uuid4\<close> draws and the outcome of the file write.
\<close>

datatype tool_call =
    Query_transcript string
  | Add_action_item string string
  | Add_agenda_item string string
  | Add_decision string string
  | Save_final_summary_result
  | Get_final_summary
  | Delete_processed_chunks

datatype observation = Text string | Summary SummaryResponse

record world =
  the_collection :: collection
  the_summarizer :: MeetingSummarizer
  the_ctx :: RunContext
  the_file :: "string option"

record environment =
  next_uuid :: string
  write_error :: "string option"

fun call_tool ::
  "(string \<Rightarrow> string \<Rightarrow> 'd::linorder) \<Rightarrow> (SummaryResponse \<Rightarrow> string) \<Rightarrow>
     world \<Rightarrow> tool_call \<times> environment \<Rightarrow> world \<times> observation" where
  "call_tool distance dump w (Query_transcript query, env) =
     (let (col, r) = query_transcript distance (the_collection w) query
      in (w\<lparr>the_collection := col\<rparr>, Text r))"
| "call_tool distance dump w (Add_action_item t c, env) =
     (let (s, r) = add_action_item (the_summarizer w) (next_uuid env) t c
      in (w\<lparr>the_summarizer := s\<rparr>, Text r))"
| "call_tool distance dump w (Add_agenda_item t c, env) =
     (let (s, r) = add_agenda_item (the_summarizer w) (next_uuid env) t c
      in (w\<lparr>the_summarizer := s\<rparr>, Text r))"
| "call_tool distance dump w (Add_decision t c, env) =
     (let (s, r) = add_decision (the_summarizer w) (next_uuid env) t c
      in (w\<lparr>the_summarizer := s\<rparr>, Text r))"
| "call_tool distance dump w (Save_final_summary_result, env) =
     (let (written, r) = save_final_summary_result dump (write_error env) (the_summarizer w)
      in (case written of None \<Rightarrow> w | Some text \<Rightarrow> w\<lparr>the_file := Some text\<rparr>, Text r))"
| "call_tool distance dump w (Get_final_summary, env) =
     (w, Summary (get_final_summary (the_summarizer w)))"
| "call_tool distance dump w (Delete_processed_chunks, env) =
     (let (ctx, col, r) = delete_processed_chunks (the_ctx w) (the_collection w)
      in (w\<lparr>the_ctx := ctx, the_collection := col\<rparr>, Text r))"

text \<open>A run of the agent: the calls in order, with the world after the run and the
  observations the tools returned.\<close>

fun run_tools ::
  "(string \<Rightarrow> string \<Rightarrow> 'd::linorder) \<Rightarrow> (SummaryResponse \<Rightarrow> string) \<Rightarrow>
     world \<Rightarrow> (tool_call \<times> environment) list \<Rightarrow> world \<times> observation list" where
  "run_tools distance dump w [] = (w, [])"
| "run_tools distance dump w (c # cs) =
     (let (w', r) = call_tool distance dump w c;
          (w'', rs) = run_tools distance dump w' cs
      in (w'', r # rs))"

text \<open>The state the module starts in: an empty accumulator and a run context without
  the attribute, over whatever the collection holds.\<close>

definition initial_world :: "string \<Rightarrow> collection \<Rightarrow> world" where
  "initial_world api_key col =
     \<lparr>the_collection = col, the_summarizer = MeetingSummarizer_init api_key,
      the_ctx = \<lparr>processed_chunks = None\<rparr>, the_file = None\<rparr>"

text \<open>The blocks of one kind that the add calls of a run create, in the order of the
  calls: each has the identifier drawn for its call, the kind, the content of the call and
  the colour \<open>default\<close>.\<close>

fun added_block :: "string \<Rightarrow> tool_call \<times> environment \<Rightarrow> Block list" where
  "added_block kind (Add_action_item t c, env) =
     (if kind = ''action''
      then [\<lparr>id_block = next_uuid env, type_block = ''action'', content = c, color = ''default''\<rparr>]
      else [])"
| "added_block kind (Add_agenda_item t c, env) =
     (if kind = ''agenda''
      then [\<lparr>id_block = next_uuid env, type_block = ''agenda'', content = c, color = ''default''\<rparr>]
      else [])"
| "added_block kind (Add_decision t c, env) =
     (if kind = ''decision''
      then [\<lparr>id_block = next_uuid env, type_block = ''decision'', content = c, color = ''default''\<rparr>]
      else [])"
| "added_block kind (Query_transcript q, env) = []"
| "added_block kind (Save_final_summary_result, env) = []"
| "added_block kind (Get_final_summary, env) = []"
| "added_block kind (Delete_processed_chunks, env) = []"

definition blocks_added :: "string \<Rightarrow> (tool_call \<times> environment) list \<Rightarrow> Block list" where
  "blocks_added kind calls = concat (map (added_block kind) calls)"

section \<open>Facts about the primitives and the chunking\<close>

declare range_up.simps [simp del] range_down.simps [simp del] str_nat.simps [simp del]

lemma range_up_eq_map:
  "0 < step \<Longrightarrow>
     range_up i stop step = map (\<lambda>k. i + int k * step) [0..<nat ((stop - i + step - 1) div step)]"
proof (induction i stop step rule: range_up.induct)
  case (1 i stop step)
  show ?case
  proof (cases "i < stop")
    case False
    with "1.prems" have "(stop - i + step - 1) div step \<le> 0"
      by (smt (verit, ccfv_threshold) div_pos_pos_trivial pos_imp_zdiv_neg_iff)
    with False "1.prems" show ?thesis by (simp add: range_up.simps [of i])
  next
    case True
    let ?n' = "nat ((stop - (i + step) + step - 1) div step)"
    have nn: "0 \<le> stop - i - 1" using True by simp
    have "(stop - i + step - 1) div step = (stop - i - 1) div step + 1"
      by (smt (verit, best) div_add_self1 "1.prems")
    moreover have "0 \<le> (stop - i - 1) div step"
      using nn "1.prems" by (simp add: pos_imp_zdiv_nonneg_iff)
    ultimately have n: "nat ((stop - i + step - 1) div step) = Suc ?n'"
      by (simp add: algebra_simps nat_add_distrib)
    have "range_up i stop step = i # range_up (i + step) stop step"
      using True "1.prems" by (simp add: range_up.simps [of i])
    also have "range_up (i + step) stop step = map (\<lambda>k. (i + step) + int k * step) [0..<?n']"
      using "1.IH" True "1.prems" by simp
    also have "i # map (\<lambda>k. (i + step) + int k * step) [0..<?n']
             = map (\<lambda>k. i + int k * step) [0..<Suc ?n']"
      by (simp add: upt_conv_Cons map_Suc_upt [symmetric] algebra_simps del: upt_Suc)
    finally show ?thesis using n by simp
  qed
qed

lemma range_down_nonneg_stop: "0 \<le> stop \<Longrightarrow> range_down 0 stop step = []"
  by (simp add: range_down.simps [of 0])

lemma py_slice_window:
  assumes "0 \<le> i" "i < int (length xs)" "0 \<le> c"
  shows "py_slice xs i (i + c) = take (nat c) (drop (nat i) xs)"
proof (cases "i + c \<le> int (length xs)")
  case True
  with assms show ?thesis by (simp add: py_slice_def Let_def min_def)
next
  case False
  with assms have "nat (int (length xs) - i) \<le> nat c" by simp
  with False assms show ?thesis by (simp add: py_slice_def Let_def min_def nat_diff_distrib)
qed

lemma digit_char_inj: "a < 10 \<Longrightarrow> b < 10 \<Longrightarrow> digit_char a = digit_char b \<Longrightarrow> a = b"
proof -
  assume a: "a < 10" and b: "b < 10" and e: "digit_char a = digit_char b"
  from e have "of_char (char_of (48 + a) :: char) = (of_char (char_of (48 + b) :: char) :: nat)"
    by (simp add: digit_char_def)
  with a b show "a = b" by (simp add: of_char_of)
qed

lemma str_nat_nonempty: "str_nat n \<noteq> []"
  by (subst str_nat.simps) simp

lemma str_nat_length: "10 \<le> n \<Longrightarrow> 2 \<le> length (str_nat n)"
proof -
  assume "10 \<le> n"
  then have "str_nat n = str_nat (n div 10) @ [digit_char (n mod 10)]"
    by (subst str_nat.simps) simp
  moreover have "1 \<le> length (str_nat (n div 10))"
    using str_nat_nonempty [of "n div 10"] by (simp add: Suc_le_eq)
  ultimately show ?thesis by simp
qed

lemma str_nat_inj: "str_nat m = str_nat n \<Longrightarrow> m = n"
proof (induction m arbitrary: n rule: str_nat.induct)
  case (1 m)
  show ?case
  proof (cases "m < 10")
    case True
    show ?thesis
    proof (cases "n < 10")
      case n: True
      from "1.prems" True n have "digit_char m = digit_char n"
        by (simp add: str_nat.simps [of m] str_nat.simps [of n])
      with True n show ?thesis by (blast dest: digit_char_inj)
    next
      case False
      then have "2 \<le> length (str_nat n)" by (simp add: str_nat_length)
      moreover have "length (str_nat m) = 1" using True by (simp add: str_nat.simps [of m])
      ultimately show ?thesis using "1.prems" by simp
    qed
  next
    case False
    show ?thesis
    proof (cases "n < 10")
      case True
      from False have "2 \<le> length (str_nat m)" by (simp add: str_nat_length)
      moreover have "length (str_nat n) = 1" using True by (simp add: str_nat.simps [of n])
      ultimately show ?thesis using "1.prems" by simp
    next
      case n: False
      from "1.prems" False n
      have "str_nat (m div 10) @ [digit_char (m mod 10)] = str_nat (n div 10) @ [digit_char (n mod 10)]"
        by (simp add: str_nat.simps [of m] str_nat.simps [of n])
      then have a: "str_nat (m div 10) = str_nat (n div 10)"
        and b: "digit_char (m mod 10) = digit_char (n mod 10)" by simp_all
      from "1.IH" [OF False a] have "m div 10 = n div 10" .
      moreover have "m mod 10 = n mod 10" by (rule digit_char_inj [OF _ _ b]) simp_all
      ultimately show ?thesis by (metis div_mult_mod_eq)
    qed
  qed
qed

lemma new_chunk_cid_inj: "cid (new_chunk i s) = cid (new_chunk j t) \<Longrightarrow> i = j"
  by (simp add: new_chunk_def str_nat_inj)

lemma fold_collection_add:
  "fold (\<lambda>(i, text) c. collection_add c (new_chunk i text)) (enumerate n ts) col
     = col @ map (\<lambda>(i, text). new_chunk i text) (enumerate n ts)"
  if "\<And>c. c \<in> set col \<Longrightarrow> \<exists>j s. j < n \<and> c = new_chunk j s"
  using that
proof (induction ts arbitrary: n col)
  case Nil
  then show ?case by simp
next
  case (Cons t ts)
  have fresh: "cid (new_chunk n t) \<notin> cid ` set col"
  proof
    assume "cid (new_chunk n t) \<in> cid ` set col"
    then obtain c where c: "c \<in> set col" "cid (new_chunk n t) = cid c" by auto
    from Cons.prems [OF c(1)] obtain j s where "j < n" "c = new_chunk j s" by auto
    with c(2) show False using new_chunk_cid_inj by fastforce
  qed
  have step: "collection_add col (new_chunk n t) = col @ [new_chunk n t]"
    using fresh by (simp add: collection_add_def)
  have "\<exists>j s. j < Suc n \<and> c = new_chunk j s" if "c \<in> set (col @ [new_chunk n t])" for c
  proof (cases "c \<in> set col")
    case True
    from Cons.prems [OF True] obtain j s where "j < n" "c = new_chunk j s" by auto
    then have "j < Suc n \<and> c = new_chunk j s" by simp
    then show ?thesis by blast
  next
    case False
    with that have "n < Suc n \<and> c = new_chunk n t" by simp
    then show ?thesis by blast
  qed
  from Cons.IH [of "col @ [new_chunk n t]" "Suc n", OF this]
  show ?case using step by simp
qed

lemma collection_clear: "collection_delete col (collection_get_ids col) = []"
  by (simp add: collection_delete_def collection_get_ids_def filter_empty_conv)


lemma ceil_count:
  assumes "0 < (s::int)"
  shows "nat ((int L - 0 + s - 1) div s) = (L + nat s - 1) div nat s"
proof -
  have "int (L + nat s - 1) = int L + s - 1" using assms by (simp add: of_nat_diff)
  then have "(int L + s - 1) div s = int ((L + nat s - 1) div nat s)"
    using assms by (simp add: zdiv_int)
  then show ?thesis by simp
qed

lemma window_start_in_range:
  assumes "0 < (s::nat)" "k < (L + s - 1) div s"
  shows "k * s < L"
proof -
  from assms(2) have "Suc k \<le> (L + s - 1) div s" by simp
  then have "Suc k * s \<le> (L + s - 1) div s * s" by (rule mult_le_mono1)
  also have "\<dots> \<le> L + s - 1" by (rule div_times_less_eq_dividend)
  finally show ?thesis using assms(1) by simp
qed

lemma map_enumerate_upt:
  "map (\<lambda>(i, t). g i t) (enumerate 0 (map f [0..<n])) = map (\<lambda>k. g k (f k)) [0..<n]"
  by (rule nth_equalityI) (simp_all add: enumerate_eq_zip)

lemma chunks_of_process_transcript:
  assumes "0 \<le> overlap" "overlap < chunk_size"
  shows "process_transcript fs col transcript_path chunk_size overlap =
     (map (\<lambda>k. new_chunk k (take (nat chunk_size)
              (drop (k * nat (chunk_size - overlap)) (read_transcript fs transcript_path))))
        [0..<(length (read_transcript fs transcript_path) + nat (chunk_size - overlap) - 1)
               div nat (chunk_size - overlap)],
      Inr ((length (read_transcript fs transcript_path) + nat (chunk_size - overlap) - 1)
               div nat (chunk_size - overlap)))"
proof -
  let ?D = "read_transcript fs transcript_path"
  let ?s = "chunk_size - overlap"
  let ?n = "(length ?D + nat ?s - 1) div nat ?s"
  let ?f = "\<lambda>k. take (nat chunk_size) (drop (k * nat ?s) ?D)"
  have s: "0 < ?s" using assms by simp
  have starts: "py_range 0 (int (length ?D)) ?s = Inr (map (\<lambda>k. int k * ?s) [0..<?n])"
    using s range_up_eq_map [OF s, of 0 "int (length ?D)"] ceil_count [OF s, of "length ?D"]
    by (simp add: py_range_def)
  have slice: "py_slice ?D (int k * ?s) (int k * ?s + chunk_size) = ?f k" if "k < ?n" for k
  proof -
    have "k * nat ?s < length ?D" using window_start_in_range [OF _ that] s by simp
    then have "int k * ?s < int (length ?D)"
      using s by (metis nat_0_le nat_less_le of_nat_less_iff of_nat_mult order_less_imp_le)
    moreover have "0 \<le> int k * ?s" using s by simp
    moreover have "0 \<le> chunk_size" using assms by simp
    ultimately have "py_slice ?D (int k * ?s) (int k * ?s + chunk_size)
        = take (nat chunk_size) (drop (nat (int k * ?s)) ?D)"
      by (simp add: py_slice_window)
    moreover have "nat (int k * ?s) = k * nat ?s" using s by (simp add: nat_mult_distrib)
    ultimately show ?thesis by simp
  qed
  have chunks: "map (\<lambda>i. py_slice ?D i (i + chunk_size)) (map (\<lambda>k. int k * ?s) [0..<?n])
      = map ?f [0..<?n]"
    using slice by simp
  have stored: "fold (\<lambda>(i, text) c. collection_add c (new_chunk i text))
       (enumerate 0 (map ?f [0..<?n])) [] = map (\<lambda>k. new_chunk k (?f k)) [0..<?n]"
    using fold_collection_add [of "[]" 0 "map ?f [0..<?n]"]
    by (simp add: map_enumerate_upt)
  show ?thesis
    unfolding process_transcript_def Let_def collection_clear starts
    by (simp only: sum.case chunks stored length_map length_upt diff_zero)
qed

section \<open>Chunking: claims C2, C3 and C5\<close>

lemma upt_iff_window:
  assumes "0 < (s::nat)"
  shows "(k < (L + s - 1) div s) = (k * s < L)"
proof
  assume "k < (L + s - 1) div s"
  with assms show "k * s < L" by (rule window_start_in_range)
next
  assume "k * s < L"
  then have "Suc k * s \<le> L + s - 1" using assms by simp
  then have "Suc k \<le> (L + s - 1) div s"
    using assms by (simp add: less_eq_div_iff_mult_less_eq del: mult_Suc)
  then show "k < (L + s - 1) div s" by simp
qed

text \<open>
  Claim C2. For a document \<open>D\<close> (the transcript read), a chunk size \<open>C\<close> and an overlap \<open>O\<close>
  with \<open>0 \<le> O < C\<close>, \<open>process_transcript\<close> replaces the collection by the chunks
  \<open>D[i : i + C]\<close> for the window starts \<open>i = k * (C - O)\<close>, \<open>k = 0, 1, ...\<close>, that are below
  \<open>len(D)\<close>, with the ids \<open>id_k\<close>; it stores exactly that many chunks and returns their
  number, which is \<open>len(D)\<close> divided by \<open>C - O\<close>, rounded up.
\<close>

theorem process_transcript_chunks:
  assumes "0 \<le> overlap" and "overlap < chunk_size"
  shows "process_transcript fs col transcript_path chunk_size overlap =
     (map (\<lambda>k. new_chunk k (take (nat chunk_size)
              (drop (k * nat (chunk_size - overlap)) (read_transcript fs transcript_path))))
        [0..<(length (read_transcript fs transcript_path) + nat (chunk_size - overlap) - 1)
               div nat (chunk_size - overlap)],
      Inr ((length (read_transcript fs transcript_path) + nat (chunk_size - overlap) - 1)
               div nat (chunk_size - overlap)))
   \<and> (\<forall>k. (k < (length (read_transcript fs transcript_path) + nat (chunk_size - overlap) - 1)
               div nat (chunk_size - overlap))
          = (k * nat (chunk_size - overlap) < length (read_transcript fs transcript_path)))
   \<and> length (fst (process_transcript fs col transcript_path chunk_size overlap))
       = (length (read_transcript fs transcript_path) + nat (chunk_size - overlap) - 1)
               div nat (chunk_size - overlap)"
proof (intro conjI allI)
  show "process_transcript fs col transcript_path chunk_size overlap =
     (map (\<lambda>k. new_chunk k (take (nat chunk_size)
              (drop (k * nat (chunk_size - overlap)) (read_transcript fs transcript_path))))
        [0..<(length (read_transcript fs transcript_path) + nat (chunk_size - overlap) - 1)
               div nat (chunk_size - overlap)],
      Inr ((length (read_transcript fs transcript_path) + nat (chunk_size - overlap) - 1)
               div nat (chunk_size - overlap)))"
    using assms by (rule chunks_of_process_transcript)
  have "0 < nat (chunk_size - overlap)" using assms by simp
  then show "(k < (length (read_transcript fs transcript_path) + nat (chunk_size - overlap) - 1)
               div nat (chunk_size - overlap))
          = (k * nat (chunk_size - overlap) < length (read_transcript fs transcript_path))" for k
    by (rule upt_iff_window)
  show "length (fst (process_transcript fs col transcript_path chunk_size overlap))
       = (length (read_transcript fs transcript_path) + nat (chunk_size - overlap) - 1)
               div nat (chunk_size - overlap)"
    by (simp add: chunks_of_process_transcript [OF assms])
qed

text \<open>The document \<open>AAAABBBBCCCC\<close> with chunk size 4 and overlap 2: six chunks, whatever
  the collection held before.\<close>

theorem process_transcript_chunks_witness:
  "(0::int) \<le> 2 \<and> (2::int) < 4 \<and>
   process_transcript Map.empty [new_chunk 7 ''old''] ''AAAABBBBCCCC'' 4 2 =
     ([new_chunk 0 ''AAAA'', new_chunk 1 ''AABB'', new_chunk 2 ''BBBB'',
       new_chunk 3 ''BBCC'', new_chunk 4 ''CCCC'', new_chunk 5 ''CC''], Inr 6)"
proof -
  have a: "(0::int) \<le> 2" and b: "(2::int) < 4" by simp_all
  have "process_transcript Map.empty [new_chunk 7 ''old''] ''AAAABBBBCCCC'' 4 2 =
     (map (\<lambda>k. new_chunk k (take (nat 4)
              (drop (k * nat (4 - 2)) (read_transcript Map.empty ''AAAABBBBCCCC''))))
        [0..<(length (read_transcript Map.empty ''AAAABBBBCCCC'') + nat (4 - 2) - 1)
               div nat (4 - 2)],
      Inr ((length (read_transcript Map.empty ''AAAABBBBCCCC'') + nat (4 - 2) - 1)
               div nat (4 - 2)))"
    using process_transcript_chunks [OF a b, of Map.empty "[new_chunk 7 ''old'']" "''AAAABBBBCCCC''"]
    by (rule conjunct1)
  also have "(map (\<lambda>k. new_chunk k (take (nat 4)
              (drop (k * nat (4 - 2)) (read_transcript Map.empty ''AAAABBBBCCCC''))))
        [0..<(length (read_transcript Map.empty ''AAAABBBBCCCC'') + nat (4 - 2) - 1)
               div nat (4 - 2)],
      Inr ((length (read_transcript Map.empty ''AAAABBBBCCCC'') + nat (4 - 2) - 1)
               div nat (4 - 2)))
    = ([new_chunk 0 ''AAAA'', new_chunk 1 ''AABB'', new_chunk 2 ''BBBB'',
       new_chunk 3 ''BBCC'', new_chunk 4 ''CCCC'', new_chunk 5 ''CC''], Inr 6 :: error + nat)"
    by code_simp
  finally show ?thesis by simp
qed


lemma ceil_mult_ge:
  assumes "0 < (s::nat)"
  shows "L \<le> (L + s - 1) div s * s"
proof -
  have "L + s - 1 = (L + s - 1) div s * s + (L + s - 1) mod s" by simp
  moreover have "(L + s - 1) mod s < s" using assms by simp
  ultimately show ?thesis by linarith
qed

lemma telescope:
  "take (s + ov) D @ concat (map (\<lambda>k. drop ov (take (s + ov) (drop (k * s) D))) [1..<Suc m])
     = take (m * s + (s + ov)) D"
proof (induction m)
  case 0
  show ?case by simp
next
  case (Suc m)
  have "drop ov (take (s + ov) (drop (Suc m * s) D)) = take s (drop (m * s + (s + ov)) D)"
    by (simp add: drop_take ac_simps)
  moreover have "take (Suc m * s + (s + ov)) D
      = take (m * s + (s + ov)) D @ take s (drop (m * s + (s + ov)) D)"
    by (simp add: take_add [symmetric] ac_simps)
  ultimately show ?case using Suc.IH by simp
qed

lemma reassemble_windows:
  assumes "0 < (s::nat)"
  shows "reassemble ov (map (\<lambda>k. take (s + ov) (drop (k * s) D)) [0..<(length D + s - 1) div s]) = D"
proof (cases "(length D + s - 1) div s")
  case 0
  with ceil_mult_ge [OF assms, of "length D"] show ?thesis by simp
next
  case (Suc m)
  have "length D \<le> Suc m * s" using ceil_mult_ge [OF assms, of "length D"] Suc by simp
  then have le: "length D \<le> m * s + (s + ov)" by simp
  have "[0..<Suc m] = 0 # [1..<Suc m]" by (simp add: upt_conv_Cons)
  then have "reassemble ov (map (\<lambda>k. take (s + ov) (drop (k * s) D)) [0..<Suc m])
      = take (s + ov) D @ concat (map (\<lambda>k. drop ov (take (s + ov) (drop (k * s) D))) [1..<Suc m])"
    by (simp add: comp_def del: upt_Suc)
  also have "\<dots> = take (m * s + (s + ov)) D" by (rule telescope)
  also have "\<dots> = D" using le by simp
  finally show ?thesis using Suc by simp
qed

lemma window_overlap:
  "drop s (take (s + ov) (drop (k * s) D)) = take ov (take (s + ov) (drop (Suc k * s) D))"
  by (simp add: drop_take add.commute min_def)

lemma document_new_chunk: "document (new_chunk k t) = t"
  by (simp add: new_chunk_def)

text \<open>
  Claim C3. For \<open>0 \<le> overlap < chunk_size\<close>, the chunks that \<open>process_transcript\<close> stores
  give the document back: the first chunk followed by every later chunk without its first
  \<open>overlap\<close> characters is the transcript. Two neighbouring chunks of full length overlap
  in exactly \<open>overlap\<close> characters: the end of the earlier one, after its first
  \<open>chunk_size - overlap\<close> characters, is the first \<open>overlap\<close> characters of the later one.
\<close>

theorem chunks_reassemble:
  assumes "0 \<le> overlap" and "overlap < chunk_size"
  shows "(let chunks = map document (fst (process_transcript fs col transcript_path chunk_size overlap))
          in reassemble (nat overlap) chunks = read_transcript fs transcript_path
           \<and> (\<forall>k. Suc k < length chunks \<longrightarrow>
                 length (chunks ! k) = nat chunk_size \<longrightarrow>
                 length (chunks ! Suc k) = nat chunk_size \<longrightarrow>
                 drop (nat chunk_size - nat overlap) (chunks ! k) = take (nat overlap) (chunks ! Suc k)
                 \<and> length (take (nat overlap) (chunks ! Suc k)) = nat overlap))"
proof -
  let ?D = "read_transcript fs transcript_path"
  let ?s = "nat (chunk_size - overlap)"
  let ?ov = "nat overlap"
  let ?n = "(length ?D + ?s - 1) div ?s"
  let ?cs = "map (\<lambda>k. take (?s + ?ov) (drop (k * ?s) ?D)) [0..<?n]"
  have s: "0 < ?s" using assms by simp
  have c: "nat chunk_size = ?s + ?ov" using assms by simp
  have cs: "map document (fst (process_transcript fs col transcript_path chunk_size overlap)) = ?cs"
    by (simp add: chunks_of_process_transcript [OF assms] comp_def document_new_chunk c)
  have r: "reassemble ?ov ?cs = ?D" using s by (rule reassemble_windows)
  have o: "drop (nat chunk_size - ?ov) (?cs ! k) = take ?ov (?cs ! Suc k)
           \<and> length (take ?ov (?cs ! Suc k)) = ?ov"
    if "Suc k < length ?cs" "length (?cs ! Suc k) = nat chunk_size" for k
  proof -
    from that(1) have k: "k < ?n" "Suc k < ?n" by simp_all
    have "drop ?s (?cs ! k) = take ?ov (?cs ! Suc k)"
      using k window_overlap [of ?s ?ov k ?D] by (simp del: mult_Suc)
    moreover have "nat chunk_size - ?ov = ?s" using c by simp
    moreover have "length (take ?ov (?cs ! Suc k)) = ?ov" using that(2) c by simp
    ultimately show ?thesis by simp
  qed
  show ?thesis unfolding Let_def cs using r o by blast
qed

text \<open>The six chunks of \<open>AAAABBBBCCCC\<close> reassemble to it, and the first two overlap in
  \<open>AA\<close>.\<close>

theorem chunks_reassemble_witness:
  "(0::int) \<le> 2 \<and> (2::int) < 4 \<and>
   map document (fst (process_transcript Map.empty [] ''AAAABBBBCCCC'' 4 2))
     = [''AAAA'', ''AABB'', ''BBBB'', ''BBCC'', ''CCCC'', ''CC''] \<and>
   reassemble 2 [''AAAA'', ''AABB'', ''BBBB'', ''BBCC'', ''CCCC'', ''CC''] = ''AAAABBBBCCCC'' \<and>
   drop 2 ''AAAA'' = take 2 ''AABB''"
proof -
  have a: "(0::int) \<le> 2" and b: "(2::int) < 4" by simp_all
  have d: "map document (fst (process_transcript Map.empty [] ''AAAABBBBCCCC'' 4 2))
     = [''AAAA'', ''AABB'', ''BBBB'', ''BBCC'', ''CCCC'', ''CC'']"
    by (simp add: chunks_of_process_transcript [OF a b] read_transcript_def upt_conv_Cons
        document_new_chunk)
  have e: "read_transcript Map.empty ''AAAABBBBCCCC'' = ''AAAABBBBCCCC''"
    by (simp add: read_transcript_def)
  from chunks_reassemble [OF a b, of Map.empty "[]" "''AAAABBBBCCCC''"]
  have "reassemble 2 [''AAAA'', ''AABB'', ''BBBB'', ''BBCC'', ''CCCC'', ''CC''] = ''AAAABBBBCCCC''"
    unfolding Let_def d e by simp
  with d show ?thesis by simp
qed

text \<open>
  Claim C5 says that \<open>process_transcript\<close> fails when \<open>overlap \<ge> chunk_size\<close>. With an
  overlap above the chunk size the step of \<open>range\<close> is negative, the range is empty and the
  call returns 0 without an error.
\<close>

theorem process_transcript_overlap_too_large_counterexample:
  "process_transcript Map.empty [new_chunk 0 ''old''] ''abc'' 2 3 = ([], Inr 0)"
  by (simp add: process_transcript_def collection_clear py_range_def range_down.simps [of 0])

text \<open>
  Claim C5, as the code has it. With \<open>overlap \<ge> chunk_size\<close> no chunk is stored and the
  collection is empty after the call, the chunks it held before being cleared first. The
  call raises \<open>ValueError\<close> (from \<open>range\<close> with step 0) when \<open>overlap = chunk_size\<close>, and
  returns 0 when \<open>overlap > chunk_size\<close>.
\<close>

theorem process_transcript_overlap_too_large:
  assumes "chunk_size \<le> overlap"
  shows "process_transcript fs col transcript_path chunk_size overlap =
           ([], if overlap = chunk_size then Inl ValueError else Inr 0)"
  using assms
  by (simp add: process_transcript_def collection_clear py_range_def range_down.simps [of 0])

text \<open>Chunk size and overlap both 3: the old chunk is gone and the call raises.\<close>

theorem process_transcript_overlap_too_large_witness:
  "(3::int) \<le> 3 \<and> process_transcript Map.empty [new_chunk 0 ''old''] ''abc'' 3 3 = ([], Inl ValueError)"
  using process_transcript_overlap_too_large [of 3 3 Map.empty "[new_chunk 0 ''old'']" "''abc''"]
  by simp

section \<open>The query tool: claims C1 and C7\<close>

text \<open>The ids of a collection stay unique: \<open>add\<close> and \<open>delete\<close> keep them so, and
  every store that \<open>process_transcript\<close> builds has them.\<close>

lemma collection_add_distinct:
  "distinct (map cid col) \<Longrightarrow> distinct (map cid (collection_add col c))"
  by (simp add: collection_add_def)

lemma fold_collection_add_distinct:
  "distinct (map cid col) \<Longrightarrow>
     distinct (map cid (fold (\<lambda>(i, text) c. collection_add c (new_chunk i text)) xs col))"
proof (induction xs arbitrary: col)
  case Nil
  then show ?case by simp
next
  case (Cons x xs)
  from Cons.prems have "distinct (map cid (collection_add col (new_chunk (fst x) (snd x))))"
    by (rule collection_add_distinct)
  then show ?case using Cons.IH by (simp add: split_beta)
qed

lemma collection_delete_distinct:
  "distinct (map cid col) \<Longrightarrow> distinct (map cid (collection_delete col ids))"
  by (simp add: collection_delete_def distinct_map_filter)

lemma process_transcript_distinct_ids:
  "distinct (map cid (fst (process_transcript fs col transcript_path chunk_size overlap)))"
  by (simp add: process_transcript_def Let_def collection_clear fold_collection_add_distinct
      split: sum.split)

lemma isspace_newline: "isspace (CHR 0x0A)"
  by (simp add: isspace_def)

lemma strip_newlines: "py_strip ([CHR 0x0A] @ d @ [CHR 0x0A]) = py_strip d"
proof (cases "\<forall>x\<in>set d. isspace x")
  case True
  then have a: "dropWhile isspace d = []" by (rule iffD2 [OF dropWhile_eq_Nil_conv])
  from True have "\<forall>x\<in>set ([CHR 0x0A] @ d @ [CHR 0x0A]). isspace x"
    by (simp add: isspace_newline)
  then have b: "dropWhile isspace ([CHR 0x0A] @ d @ [CHR 0x0A]) = []"
    by (rule iffD2 [OF dropWhile_eq_Nil_conv])
  show ?thesis by (simp only: py_strip_def a b)
next
  case False
  then obtain x where x: "x \<in> set d" "\<not> isspace x" by blast
  then have "dropWhile isspace (d @ [CHR 0x0A]) = dropWhile isspace d @ [CHR 0x0A]"
    by (simp add: dropWhile_append1)
  then have "dropWhile isspace ([CHR 0x0A] @ d @ [CHR 0x0A]) = dropWhile isspace d @ [CHR 0x0A]"
    by (simp add: isspace_newline)
  then show ?thesis by (simp add: py_strip_def isspace_newline)
qed

lemma sort_key_hd:
  assumes "xs \<noteq> []"
  shows "hd (sort_key f xs) \<in> set xs" and "\<And>x. x \<in> set xs \<Longrightarrow> f (hd (sort_key f xs)) \<le> f x"
    and "take (Suc 0) (sort_key f xs) = [hd (sort_key f xs)]"
proof -
  from assms have ne: "sort_key f xs \<noteq> []" by (metis length_0_conv length_sort)
  then obtain h t where ht: "sort_key f xs = h # t" by (cases "sort_key f xs") auto
  have st: "set (h # t) = set xs" using set_sort [of f xs] by (simp only: ht)
  then show "hd (sort_key f xs) \<in> set xs" by (auto simp: ht)
  show "take (Suc 0) (sort_key f xs) = [hd (sort_key f xs)]" by (simp add: ht)
  fix x assume "x \<in> set xs"
  then have "x \<in> set (h # t)" using st by simp
  moreover have "sorted (map f (h # t))" using sorted_sort_key [of f xs] by (simp only: ht)
  ultimately show "f (hd (sort_key f xs)) \<le> f x" by (auto simp: ht)
qed

lemma query_transcript_nonempty:
  assumes "col \<noteq> []"
  shows "query_transcript distance col query =
     (collection_delete col [cid (hd (sort_key (\<lambda>c. distance query (document c)) col))],
      py_strip (document (hd (sort_key (\<lambda>c. distance query (document c)) col))))"
  using assms strip_newlines [of "document (hd (sort_key (\<lambda>c. distance query (document c)) col))"]
  by (simp add: query_transcript_def collection_get_ids_def collection_query_def
      sort_key_hd(3) [OF assms] Let_def)

lemma filter_eq_single: "distinct xs \<Longrightarrow> a \<in> set xs \<Longrightarrow> filter (\<lambda>x. x = a) xs = [a]"
proof (induction xs)
  case Nil
  then show ?case by simp
next
  case (Cons x xs)
  show ?case
  proof (cases "x = a")
    case True
    with Cons.prems have "a \<notin> set xs" by simp
    then have "filter (\<lambda>x. x = a) xs = []" by (auto simp: filter_empty_conv)
    with True show ?thesis by simp
  next
    case False
    with Cons.prems Cons.IH show ?thesis by simp
  qed
qed

lemma removed_ids_delete_one:
  assumes "distinct (map cid col)" and "c \<in> set col"
  shows "removed_ids col (filter (\<lambda>x. cid x \<noteq> cid c) col) = [cid c]"
proof -
  have "(i \<notin> set (map cid (filter (\<lambda>x. cid x \<noteq> cid c) col))) = (i = cid c)"
    if "i \<in> set (map cid col)" for i
    using that by auto
  then have "removed_ids col (filter (\<lambda>x. cid x \<noteq> cid c) col)
      = filter (\<lambda>i. i = cid c) (map cid col)"
    unfolding removed_ids_def by (rule filter_cong [OF refl])
  also have "\<dots> = [cid c]" using assms by (simp add: filter_eq_single)
  finally show ?thesis .
qed

lemma delete_one_length:
  assumes "distinct (map cid col)" and "c \<in> set col"
  shows "length (filter (\<lambda>x. cid x \<noteq> cid c) col) + 1 = length col"
proof -
  have "length (filter (\<lambda>x. cid x \<noteq> cid c) col) + length (filter (\<lambda>x. \<not> cid x \<noteq> cid c) col)
      = length col" by (rule sum_length_filter_compl)
  moreover have "length (filter (\<lambda>x. \<not> cid x \<noteq> cid c) col)
      = length (filter (\<lambda>i. i = cid c) (map cid col))"
    by (simp add: filter_map comp_def)
  moreover have "filter (\<lambda>i. i = cid c) (map cid col) = [cid c]"
    using assms by (simp add: filter_eq_single)
  ultimately show ?thesis by simp
qed

lemma removed_ids_distinct:
  "distinct (map cid col) \<Longrightarrow> distinct (removed_ids col after)"
  by (simp add: removed_ids_def)

lemma removed_ids_subset: "set (removed_ids col after) \<subseteq> cid ` set col"
  by (auto simp: removed_ids_def)

lemma removed_ids_disjoint: "set (removed_ids col after) \<inter> cid ` set after = {}"
  by (auto simp: removed_ids_def)

lemma query_transcript_filter:
  "\<exists>P. fst (query_transcript distance col query) = filter P col"
proof (cases "col = []")
  case True
  then show ?thesis by (simp add: query_transcript_def collection_get_ids_def)
next
  case False
  then have "fst (query_transcript distance col query)
    = filter (\<lambda>x. cid x \<notin> set [cid (hd (sort_key (\<lambda>c. distance query (document c)) col))]) col"
    by (simp add: query_transcript_nonempty collection_delete_def)
  then show ?thesis by blast
qed


lemma query_all_subset: "set (query_all distance col qs) \<subseteq> cid ` set col"
proof (induction qs arbitrary: col)
  case Nil
  show ?case by simp
next
  case (Cons q qs)
  obtain P where P: "fst (query_transcript distance col q) = filter P col"
    using query_transcript_filter by blast
  have "set (query_all distance (filter P col) qs) \<subseteq> cid ` set (filter P col)" by (rule Cons.IH)
  then have "set (query_all distance (filter P col) qs) \<subseteq> cid ` set col" by auto
  with removed_ids_subset [of col "filter P col"] show ?case by (simp add: P)
qed

lemma query_all_distinct:
  "distinct (map cid col) \<Longrightarrow> distinct (query_all distance col qs)"
proof (induction qs arbitrary: col)
  case Nil
  show ?case by simp
next
  case (Cons q qs)
  obtain P where P: "fst (query_transcript distance col q) = filter P col"
    using query_transcript_filter by blast
  have d: "distinct (map cid (filter P col))" using Cons.prems by (simp add: distinct_map_filter)
  have "distinct (query_all distance (filter P col) qs)" using d by (rule Cons.IH)
  moreover have "distinct (removed_ids col (filter P col))"
    using Cons.prems by (rule removed_ids_distinct)
  moreover have "set (removed_ids col (filter P col)) \<inter> set (query_all distance (filter P col) qs) = {}"
    using removed_ids_disjoint [of col "filter P col"] query_all_subset [of distance "filter P col" qs]
    by blast
  ultimately show ?case by (simp add: P)
qed

text \<open>
  Claim C1 says that a query on a non-empty store returns the text of the best-matching
  chunk. The tool returns the joined text after \<open>strip()\<close>: for the chunk \<open>"A "\<close>, the
  only chunk of its store, it returns \<open>"A"\<close>, which is not the chunk's text.
\<close>

theorem query_transcript_strips_counterexample:
  "query_transcript (\<lambda>q t. 0::nat) [new_chunk 0 ''A ''] ''agenda'' = ([], ''A'')
   \<and> snd (query_transcript (\<lambda>q t. 0::nat) [new_chunk 0 ''A ''] ''agenda'') \<noteq> document (new_chunk 0 ''A '')"
  by code_simp

text \<open>
  Claim C1, as the code has it. On a store with at least one chunk (and the unique ids of
  a collection, which every store built by \<open>process_transcript\<close> has)
  \<open>query_transcript\<close> takes a chunk of least distance to the query, returns
  its text with the white space at both ends stripped, and deletes exactly that chunk's id
  before it returns: the id is gone from the store, the store has one chunk less, and in
  any sequence of queries the ids consumed are pairwise different, so no chunk is returned
  by two query calls.
\<close>

theorem query_transcript_consumes:
  assumes "col \<noteq> []" and "distinct (map cid col)"
  shows "\<exists>c. c \<in> set col
      \<and> (\<forall>c'. c' \<in> set col \<longrightarrow> distance query (document c) \<le> distance query (document c'))
      \<and> query_transcript distance col query = (filter (\<lambda>x. cid x \<noteq> cid c) col, py_strip (document c))
      \<and> cid c \<notin> set (map cid (fst (query_transcript distance col query)))
      \<and> removed_ids col (fst (query_transcript distance col query)) = [cid c]
      \<and> length (fst (query_transcript distance col query)) + 1 = length col
      \<and> distinct (query_all distance col queries)"
proof -
  let ?c = "hd (sort_key (\<lambda>c. distance query (document c)) col)"
  have q: "query_transcript distance col query = (filter (\<lambda>x. cid x \<noteq> cid ?c) col, py_strip (document ?c))"
    using assms(1) by (simp add: query_transcript_nonempty collection_delete_def)
  have m: "?c \<in> set col" using assms(1) by (rule sort_key_hd(1))
  have b: "\<forall>c'. c' \<in> set col \<longrightarrow> distance query (document ?c) \<le> distance query (document c')"
    using sort_key_hd(2) [OF assms(1), of _ "\<lambda>c. distance query (document c)"] by blast
  have "cid ?c \<notin> set (map cid (filter (\<lambda>x. cid x \<noteq> cid ?c) col))" by auto
  moreover have "removed_ids col (filter (\<lambda>x. cid x \<noteq> cid ?c) col) = [cid ?c]"
    using assms(2) m by (rule removed_ids_delete_one)
  moreover have "length (filter (\<lambda>x. cid x \<noteq> cid ?c) col) + 1 = length col"
    using assms(2) m by (rule delete_one_length)
  moreover have "distinct (query_all distance col queries)"
    using assms(2) by (rule query_all_distinct)
  ultimately show ?thesis using q m b by (intro exI [of _ ?c]) simp
qed

text \<open>
  Claim C7. On a store without chunks \<open>query_transcript\<close> returns the sentinel string
  \<open>CHROMADB_EMPTY: All chunks have been processed.\<close> and leaves the store empty; as a tool
  call it yields that string as its observation and changes nothing. The tool has no
  exceptional outcome: every exception inside it is caught and turned into a string.
\<close>

theorem query_transcript_empty:
  "query_transcript distance [] query = ([], ''CHROMADB_EMPTY: All chunks have been processed.'')
   \<and> call_tool distance dump (w\<lparr>the_collection := []\<rparr>) (Query_transcript query, env)
       = (w\<lparr>the_collection := []\<rparr>, Text ''CHROMADB_EMPTY: All chunks have been processed.'')"
  by (simp add: query_transcript_def collection_get_ids_def)


text \<open>Two chunks, the distance of a document being its length: the query consumes
  \<open>"B"\<close> and leaves \<open>"A "\<close>.\<close>

theorem query_transcript_consumes_witness:
  "[new_chunk 0 ''A '', new_chunk 1 ''B''] \<noteq> []
   \<and> distinct (map cid [new_chunk 0 ''A '', new_chunk 1 ''B''])
   \<and> query_transcript (\<lambda>q t. length t) [new_chunk 0 ''A '', new_chunk 1 ''B''] ''agenda''
       = ([new_chunk 0 ''A ''], ''B'')
   \<and> (\<exists>c. c \<in> set [new_chunk 0 ''A '', new_chunk 1 ''B'']
      \<and> (\<forall>c'. c' \<in> set [new_chunk 0 ''A '', new_chunk 1 ''B''] \<longrightarrow>
             (\<lambda>q t. length t) ''agenda'' (document c) \<le> (\<lambda>q t. length t) ''agenda'' (document c'))
      \<and> query_transcript (\<lambda>q t. length t) [new_chunk 0 ''A '', new_chunk 1 ''B''] ''agenda''
          = (filter (\<lambda>x. cid x \<noteq> cid c) [new_chunk 0 ''A '', new_chunk 1 ''B''], py_strip (document c))
      \<and> cid c \<notin> set (map cid (fst (query_transcript (\<lambda>q t. length t)
            [new_chunk 0 ''A '', new_chunk 1 ''B''] ''agenda'')))
      \<and> removed_ids [new_chunk 0 ''A '', new_chunk 1 ''B'']
           (fst (query_transcript (\<lambda>q t. length t) [new_chunk 0 ''A '', new_chunk 1 ''B''] ''agenda''))
          = [cid c]
      \<and> length (fst (query_transcript (\<lambda>q t. length t)
            [new_chunk 0 ''A '', new_chunk 1 ''B''] ''agenda'')) + 1
          = length [new_chunk 0 ''A '', new_chunk 1 ''B'']
      \<and> distinct (query_all (\<lambda>q t. length t) [new_chunk 0 ''A '', new_chunk 1 ''B'']
            [''agenda'', ''decisions'', ''actions'']))"
proof -
  have a: "[new_chunk 0 ''A '', new_chunk 1 ''B''] \<noteq> []" by simp
  have b: "distinct (map cid [new_chunk 0 ''A '', new_chunk 1 ''B''])" by code_simp
  have c: "query_transcript (\<lambda>q t. length t) [new_chunk 0 ''A '', new_chunk 1 ''B''] ''agenda''
       = ([new_chunk 0 ''A ''], ''B'')" by code_simp
  show ?thesis
    by (intro conjI a b c
        query_transcript_consumes [OF a b, of "\<lambda>q t. length t" "''agenda''"
          "[''agenda'', ''decisions'', ''actions'']"])
qed

section \<open>The accumulator and its tools: claims C4, C6, C8, C9 and C10\<close>

text \<open>The definitions of the three add tools and of the methods they call.\<close>

lemmas add_defs =
  add_action_item_def add_agenda_item_def add_decision_def
  MeetingSummarizer_add_action_item_def MeetingSummarizer_add_agenda_item_def
  MeetingSummarizer_add_decision_def create_block_def

lemma call_tool_ctx:
  "processed_chunks (the_ctx w) = None \<Longrightarrow>
     processed_chunks (the_ctx (fst (call_tool distance dump w c))) = None"
proof (cases c)
  case (Pair tc env)
  then show "processed_chunks (the_ctx w) = None \<Longrightarrow> ?thesis"
    by (cases tc) (simp_all add: split_beta delete_processed_chunks_def Let_def split: option.split)
qed

lemma run_tools_ctx:
  "processed_chunks (the_ctx w) = None \<Longrightarrow>
     processed_chunks (the_ctx (fst (run_tools distance dump w calls))) = None"
proof (induction calls arbitrary: w)
  case Nil
  then show ?case by simp
next
  case (Cons c calls)
  from Cons.prems have "processed_chunks (the_ctx (fst (call_tool distance dump w c))) = None"
    by (rule call_tool_ctx)
  then have "processed_chunks (the_ctx (fst (run_tools distance dump
      (fst (call_tool distance dump w c)) calls))) = None" by (rule Cons.IH)
  then show ?case by (simp add: split_beta)
qed

lemma call_tool_sections:
  "self_Agenda (the_summarizer (fst (call_tool distance dump w c)))
     = (self_Agenda (the_summarizer w))
         \<lparr>blocks := blocks (self_Agenda (the_summarizer w)) @ added_block ''agenda'' c\<rparr>"
  "self_Decisions (the_summarizer (fst (call_tool distance dump w c)))
     = (self_Decisions (the_summarizer w))
         \<lparr>blocks := blocks (self_Decisions (the_summarizer w)) @ added_block ''decision'' c\<rparr>"
  "self_ActionItems (the_summarizer (fst (call_tool distance dump w c)))
     = (self_ActionItems (the_summarizer w))
         \<lparr>blocks := blocks (self_ActionItems (the_summarizer w)) @ added_block ''action'' c\<rparr>"
  "self_ClosingRemarks (the_summarizer (fst (call_tool distance dump w c)))
     = self_ClosingRemarks (the_summarizer w)"
proof -
  obtain tc env where c: "c = (tc, env)" by (cases c)
  show "self_Agenda (the_summarizer (fst (call_tool distance dump w c)))
     = (self_Agenda (the_summarizer w))
         \<lparr>blocks := blocks (self_Agenda (the_summarizer w)) @ added_block ''agenda'' c\<rparr>"
    unfolding c by (cases tc) (simp_all add: split_beta add_defs Let_def split: option.split)
  show "self_Decisions (the_summarizer (fst (call_tool distance dump w c)))
     = (self_Decisions (the_summarizer w))
         \<lparr>blocks := blocks (self_Decisions (the_summarizer w)) @ added_block ''decision'' c\<rparr>"
    unfolding c by (cases tc) (simp_all add: split_beta add_defs Let_def split: option.split)
  show "self_ActionItems (the_summarizer (fst (call_tool distance dump w c)))
     = (self_ActionItems (the_summarizer w))
         \<lparr>blocks := blocks (self_ActionItems (the_summarizer w)) @ added_block ''action'' c\<rparr>"
    unfolding c by (cases tc) (simp_all add: split_beta add_defs Let_def split: option.split)
  show "self_ClosingRemarks (the_summarizer (fst (call_tool distance dump w c)))
     = self_ClosingRemarks (the_summarizer w)"
    unfolding c by (cases tc) (simp_all add: split_beta add_defs Let_def split: option.split)
qed

lemma run_tools_sections:
  "self_Agenda (the_summarizer (fst (run_tools distance dump w calls)))
     = (self_Agenda (the_summarizer w))
         \<lparr>blocks := blocks (self_Agenda (the_summarizer w)) @ blocks_added ''agenda'' calls\<rparr>
   \<and> self_Decisions (the_summarizer (fst (run_tools distance dump w calls)))
     = (self_Decisions (the_summarizer w))
         \<lparr>blocks := blocks (self_Decisions (the_summarizer w)) @ blocks_added ''decision'' calls\<rparr>
   \<and> self_ActionItems (the_summarizer (fst (run_tools distance dump w calls)))
     = (self_ActionItems (the_summarizer w))
         \<lparr>blocks := blocks (self_ActionItems (the_summarizer w)) @ blocks_added ''action'' calls\<rparr>
   \<and> self_ClosingRemarks (the_summarizer (fst (run_tools distance dump w calls)))
     = self_ClosingRemarks (the_summarizer w)"
proof (induction calls arbitrary: w)
  case Nil
  show ?case by (simp add: blocks_added_def)
next
  case (Cons c calls)
  show ?case
    using Cons.IH [of "fst (call_tool distance dump w c)"]
    by (simp add: split_beta call_tool_sections blocks_added_def)
qed

lemma initial_sections:
  "self_Agenda (the_summarizer (initial_world k col)) = \<lparr>title = ''Agenda'', blocks = []\<rparr>"
  "self_Decisions (the_summarizer (initial_world k col)) = \<lparr>title = ''Decisions'', blocks = []\<rparr>"
  "self_ActionItems (the_summarizer (initial_world k col)) = \<lparr>title = ''Action Items'', blocks = []\<rparr>"
  "self_ClosingRemarks (the_summarizer (initial_world k col)) = \<lparr>title = ''Closing Remarks'', blocks = []\<rparr>"
  by (simp_all add: initial_world_def MeetingSummarizer_init_def)

lemma summary_after_run:
  "generate_summary (the_summarizer (fst (run_tools distance dump (initial_world api_key col) calls)))
     = \<lparr>Agenda = \<lparr>title = ''Agenda'', blocks = blocks_added ''agenda'' calls\<rparr>,
        Decisions = \<lparr>title = ''Decisions'', blocks = blocks_added ''decision'' calls\<rparr>,
        ActionItems = \<lparr>title = ''Action Items'', blocks = blocks_added ''action'' calls\<rparr>,
        ClosingRemarks = \<lparr>title = ''Closing Remarks'', blocks = []\<rparr>\<rparr>"
  using run_tools_sections [of distance dump "initial_world api_key col" calls]
  by (simp add: generate_summary_def initial_sections)

text \<open>
  Claim C4 says that both \<open>save_final_summary_result\<close> and \<open>get_final_summary\<close> fail when
  every section is empty. \<open>get_final_summary\<close> has no such check: on the accumulator as it
  starts it returns the summary with four empty sections.
\<close>

theorem get_final_summary_empty_counterexample:
  "get_final_summary (MeetingSummarizer_init ''key'')
     = \<lparr>Agenda = \<lparr>title = ''Agenda'', blocks = []\<rparr>,
        Decisions = \<lparr>title = ''Decisions'', blocks = []\<rparr>,
        ActionItems = \<lparr>title = ''Action Items'', blocks = []\<rparr>,
        ClosingRemarks = \<lparr>title = ''Closing Remarks'', blocks = []\<rparr>\<rparr>"
  by (simp add: get_final_summary_def generate_summary_def MeetingSummarizer_init_def)

text \<open>
  Claim C4, as the code has it. After any run of tool calls from the initial state,
  \<open>get_final_summary\<close> returns the summary whose sections hold exactly the blocks the add
  calls of the run created, in order (all empty when there was none), and never fails.
  \<open>save_final_summary_result\<close> returns the error string
  \<open>Error: No content found in summary. Please add some items first.\<close> and writes nothing
  when no block was added; after at least one add it writes the JSON text of that summary
  and reports success, unless the write raises \<open>IOError\<close>, which it reports as a string.
\<close>

theorem final_summary_after_run:
  "get_final_summary (the_summarizer (fst (run_tools distance dump (initial_world api_key col) calls)))
     = \<lparr>Agenda = \<lparr>title = ''Agenda'', blocks = blocks_added ''agenda'' calls\<rparr>,
        Decisions = \<lparr>title = ''Decisions'', blocks = blocks_added ''decision'' calls\<rparr>,
        ActionItems = \<lparr>title = ''Action Items'', blocks = blocks_added ''action'' calls\<rparr>,
        ClosingRemarks = \<lparr>title = ''Closing Remarks'', blocks = []\<rparr>\<rparr>
   \<and> save_final_summary_result dump io_error
         (the_summarizer (fst (run_tools distance dump (initial_world api_key col) calls)))
     = (if blocks_added ''agenda'' calls = [] \<and> blocks_added ''decision'' calls = []
            \<and> blocks_added ''action'' calls = []
        then (None, ''Error: No content found in summary. Please add some items first.'')
        else (case io_error of
                None \<Rightarrow>
                  (Some (dump (get_final_summary (the_summarizer
                     (fst (run_tools distance dump (initial_world api_key col) calls))))),
                   ''Successfully saved final summary result to file'')
              | Some msg \<Rightarrow> (None, ''Error saving to file: '' @ msg)))"
  by (simp add: get_final_summary_def save_final_summary_result_def summary_after_run Let_def
      split: option.split)

text \<open>
  Claim C6 says that the block an add call appends carries the call's title. \<open>Block\<close> has
  the fields id, type, content and color only, and \<open>create_block\<close> does not use its title:
  two calls that differ in nothing but the title give the same accumulator and the same
  block.
\<close>

theorem add_drops_title_counterexample:
  "add_action_item (MeetingSummarizer_init ''key'') ''uuid-1'' ''Send the minutes'' ''Alice mails them''
     = add_action_item (MeetingSummarizer_init ''key'') ''uuid-1'' ''Book a room'' ''Alice mails them''
   \<and> blocks (self_ActionItems (fst (add_action_item (MeetingSummarizer_init ''key'') ''uuid-1''
         ''Send the minutes'' ''Alice mails them'')))
     = [\<lparr>id_block = ''uuid-1'', type_block = ''action'', content = ''Alice mails them'',
         color = ''default''\<rparr>]"
  by (simp add: add_defs MeetingSummarizer_init_def)

text \<open>
  Claim C6, as the code has it. Each of \<open>add_action_item\<close>, \<open>add_agenda_item\<close> and
  \<open>add_decision\<close> appends to its section one block made of the fresh identifier, the kind
  (\<open>action\<close>, \<open>agenda\<close>, \<open>decision\<close>), the content of the call and the colour
  \<open>default\<close>, and leaves the rest of the accumulator as it was; the block does not depend
  on the title.
\<close>

theorem add_appends_block:
  "fst (add_action_item s u t c)
     = s\<lparr>self_ActionItems := (self_ActionItems s)\<lparr>blocks := blocks (self_ActionItems s) @
          [\<lparr>id_block = u, type_block = ''action'', content = c, color = ''default''\<rparr>]\<rparr>\<rparr>
   \<and> fst (add_agenda_item s u t c)
     = s\<lparr>self_Agenda := (self_Agenda s)\<lparr>blocks := blocks (self_Agenda s) @
          [\<lparr>id_block = u, type_block = ''agenda'', content = c, color = ''default''\<rparr>]\<rparr>\<rparr>
   \<and> fst (add_decision s u t c)
     = s\<lparr>self_Decisions := (self_Decisions s)\<lparr>blocks := blocks (self_Decisions s) @
          [\<lparr>id_block = u, type_block = ''decision'', content = c, color = ''default''\<rparr>]\<rparr>\<rparr>
   \<and> create_block u t c kind col = create_block u t' c kind col"
  by (simp add: add_defs)

text \<open>
  Claim C8 says that the add operations fail exactly when the title is empty. No add
  operation validates its arguments: \<open>add_decision\<close> with an empty title appends the block
  and returns its success message.
\<close>

theorem add_empty_title_counterexample:
  "add_decision (MeetingSummarizer_init ''key'') ''uuid-1'' '''' ''Ship on Friday''
     = ((MeetingSummarizer_init ''key'')
          \<lparr>self_Decisions := \<lparr>title = ''Decisions'',
             blocks = [\<lparr>id_block = ''uuid-1'', type_block = ''decision'',
                        content = ''Ship on Friday'', color = ''default''\<rparr>]\<rparr>\<rparr>,
        ''Successfully added decision: Successfully added decision: uuid-1'')"
  by (simp add: add_defs MeetingSummarizer_init_def)

text \<open>
  Claim C8, as the code has it. For every title, the empty one included, and every
  content, each add operation returns its success message with the new identifier and
  makes its section one block longer: it never fails.
\<close>

theorem add_never_fails:
  "snd (add_action_item s u t c) = ''Successfully added action item: Successfully added action item: '' @ u
   \<and> length (blocks (self_ActionItems (fst (add_action_item s u t c))))
       = Suc (length (blocks (self_ActionItems s)))
   \<and> snd (add_agenda_item s u t c) = ''Successfully added agenda item: Successfully added agenda item: '' @ u
   \<and> length (blocks (self_Agenda (fst (add_agenda_item s u t c))))
       = Suc (length (blocks (self_Agenda s)))
   \<and> snd (add_decision s u t c) = ''Successfully added decision: Successfully added decision: '' @ u
   \<and> length (blocks (self_Decisions (fst (add_decision s u t c))))
       = Suc (length (blocks (self_Decisions s)))"
  by (simp add: add_defs)

text \<open>
  Claim C9. Whatever the accumulator holds, the summary of \<open>generate_summary\<close> has the
  fresh section \<open>Closing Remarks\<close> without blocks, and so has the summary that
  \<open>get_final_summary\<close> returns and the one \<open>save_final_summary_result\<close> writes. No tool
  appends to the stored section either: after any run of tool calls from the initial state
  it is still empty.
\<close>

theorem closing_remarks_empty:
  "ClosingRemarks (generate_summary s) = \<lparr>title = ''Closing Remarks'', blocks = []\<rparr>
   \<and> blocks (ClosingRemarks (get_final_summary s)) = []
   \<and> (fst (save_final_summary_result dump io_error s) = None
       \<or> fst (save_final_summary_result dump io_error s) = Some (dump (generate_summary s)))
   \<and> self_ClosingRemarks (the_summarizer
         (fst (run_tools distance dump (initial_world api_key col) calls)))
       = \<lparr>title = ''Closing Remarks'', blocks = []\<rparr>"
proof (intro conjI)
  show "ClosingRemarks (generate_summary s) = \<lparr>title = ''Closing Remarks'', blocks = []\<rparr>"
    by (simp add: generate_summary_def)
  show "blocks (ClosingRemarks (get_final_summary s)) = []"
    by (simp add: get_final_summary_def generate_summary_def)
  show "fst (save_final_summary_result dump io_error s) = None
       \<or> fst (save_final_summary_result dump io_error s) = Some (dump (generate_summary s))"
    by (simp add: save_final_summary_result_def Let_def split: option.split)
  show "self_ClosingRemarks (the_summarizer
         (fst (run_tools distance dump (initial_world api_key col) calls)))
       = \<lparr>title = ''Closing Remarks'', blocks = []\<rparr>"
    using run_tools_sections [of distance dump "initial_world api_key col" calls]
    by (simp add: initial_sections)
qed

text \<open>
  Claim C10. The run context starts without the attribute \<open>processed_chunks\<close> and no tool
  sets it: after any run of tool calls it is still absent, so a call of
  \<open>delete_processed_chunks\<close> returns \<open>No chunks to delete\<close> and leaves the chunk store,
  and everything else, unchanged.
\<close>

theorem delete_processed_chunks_noop:
  assumes "processed_chunks (the_ctx w) = None"
  shows "processed_chunks (the_ctx (fst (run_tools distance dump w calls))) = None
       \<and> call_tool distance dump (fst (run_tools distance dump w calls)) (Delete_processed_chunks, env)
           = (fst (run_tools distance dump w calls), Text ''No chunks to delete'')
       \<and> delete_processed_chunks (the_ctx w) col = (the_ctx w, col, ''No chunks to delete'')"
proof -
  have "processed_chunks (the_ctx (fst (run_tools distance dump w calls))) = None"
    using assms by (rule run_tools_ctx)
  then show ?thesis using assms by (simp add: delete_processed_chunks_def)
qed

text \<open>A store of two chunks, one query, then \<open>delete_processed_chunks\<close>.\<close>

theorem delete_processed_chunks_noop_witness:
  "processed_chunks (the_ctx (initial_world ''key'' [new_chunk 0 ''A'', new_chunk 1 ''B''])) = None
   \<and> (processed_chunks (the_ctx (fst (run_tools (\<lambda>q t. length t) (\<lambda>s. ''{}'')
          (initial_world ''key'' [new_chunk 0 ''A'', new_chunk 1 ''B''])
          [(Query_transcript ''agenda'', \<lparr>next_uuid = ''uuid-1'', write_error = None\<rparr>)]))) = None
   \<and> call_tool (\<lambda>q t. length t) (\<lambda>s. ''{}'')
        (fst (run_tools (\<lambda>q t. length t) (\<lambda>s. ''{}'')
          (initial_world ''key'' [new_chunk 0 ''A'', new_chunk 1 ''B''])
          [(Query_transcript ''agenda'', \<lparr>next_uuid = ''uuid-1'', write_error = None\<rparr>)]))
        (Delete_processed_chunks, \<lparr>next_uuid = ''uuid-2'', write_error = None\<rparr>)
       = (fst (run_tools (\<lambda>q t. length t) (\<lambda>s. ''{}'')
          (initial_world ''key'' [new_chunk 0 ''A'', new_chunk 1 ''B''])
          [(Query_transcript ''agenda'', \<lparr>next_uuid = ''uuid-1'', write_error = None\<rparr>)]),
          Text ''No chunks to delete'')
   \<and> delete_processed_chunks (the_ctx (initial_world ''key'' [new_chunk 0 ''A'', new_chunk 1 ''B'']))
        [new_chunk 1 ''B'']
       = (the_ctx (initial_world ''key'' [new_chunk 0 ''A'', new_chunk 1 ''B'']),
          [new_chunk 1 ''B''], ''No chunks to delete''))"
proof -
  have a: "processed_chunks (the_ctx (initial_world ''key'' [new_chunk 0 ''A'', new_chunk 1 ''B''])) = None"
    by (simp add: initial_world_def)
  show ?thesis by (rule conjI [OF a delete_processed_chunks_noop [OF a]])
qed

end
